theory Spec2Isabelle
  imports Complex_Main "HOL-Library.List_Lexorder" "HOL-Library.Char_ord"
begin

section \<open>Data model\<close>

text \<open>
  Values decoded from JSON, as Python's \<open>json\<close> module yields them: \<open>None\<close>, \<open>bool\<close>,
  \<open>int\<close>, \<open>float\<close>, \<open>str\<close>, \<open>list\<close> and \<open>dict\<close>. A dict is an association list read
  with \<open>map_of\<close>; a decoded dict has each key once. Floats are read as exact reals.
\<close>

datatype json = JNull | JBool bool | JInt int | JFloat real | JStr string
  | JList "json list" | JDict "(string \<times> json) list"

text \<open>The exceptions of \<open>api.py\<close>, the Python exceptions the modelled paths can raise, and a
  failure of Home Assistant's storage helper.\<close>

datatype error = EleringEstfeedError | EleringAuthError | EleringConnectionError
  | PyTypeError | PyValueError | PyAttributeError | StorageError

text \<open>
  A measurement is a \<open>dict[str, Any]\<close> whose \<open>timestamp\<close> entry, when present, is an
  ISO-8601 string; the other entries are kept as they are. Instants of the wall clock
  (\<open>datetime\<close>) are integers counting microseconds, the resolution of \<open>datetime\<close>; readings
  of the monotonic clock are reals counting seconds.
\<close>

record measurement =
  timestamp :: "string option"
  payload :: "(string \<times> json) list"

text \<open>The document \<open>_async_save\<close> writes; every key may be missing in a document read back.\<close>

record snapshot =
  snap_eic :: "string option"
  snap_last_fetch :: "int option"
  snap_point_count :: "nat option"
  snap_measurements :: "measurement list option"

text \<open>Home Assistant's \<open>Store\<close>: the document on disk, and how many times it was written.\<close>

record storage =
  document :: "snapshot option"
  save_count :: nat

text \<open>\<open>EleringHistoryStore\<close>.\<close>

record history_store =
  store_eic :: string
  store :: storage
  measurements :: "measurement list"
  last_fetch :: "int option"

section \<open>History store (\<open>history.py\<close>)\<close>

definition API_MAX_WINDOW_DAYS :: int where
  "API_MAX_WINDOW_DAYS = 31"

text \<open>\<open>timedelta(days=d)\<close> in microseconds.\<close>

definition timedelta_days :: "int \<Rightarrow> int" where
  "timedelta_days d = d * 86400000000"

text \<open>The sort and set key \<open>m.get("timestamp", "")\<close>.\<close>

definition ts_key :: "measurement \<Rightarrow> string" where
  "ts_key m = (case timestamp m of None \<Rightarrow> '''' | Some t \<Rightarrow> t)"

text \<open>The \<open>for point in new_points\<close> loop of \<open>_merge\<close>, on the list, the set
  \<open>existing_ts\<close> and the counter \<open>added\<close>.\<close>

fun merge_loop ::
  "measurement list \<Rightarrow> string set \<Rightarrow> nat \<Rightarrow> measurement list
     \<Rightarrow> measurement list \<times> string set \<times> nat" where
  "merge_loop ms existing_ts added [] = (ms, existing_ts, added)"
| "merge_loop ms existing_ts added (point # rest) =
     (let ts = ts_key point in
      if ts \<noteq> '''' \<and> ts \<notin> existing_ts
      then merge_loop (ms @ [point]) (insert ts existing_ts) (added + 1) rest
      else merge_loop ms existing_ts added rest)"

text \<open>\<open>_merge\<close> on the measurement list: the loop, then the stable sort by key
  (\<open>list.sort\<close> is stable, as \<open>sort_key\<close> is). The second component is \<open>added\<close>, which
  the source only logs.\<close>

definition merge_points :: "measurement list \<Rightarrow> measurement list \<Rightarrow> measurement list \<times> nat" where
  "merge_points ms new_points =
     (case merge_loop ms (set (map ts_key ms)) 0 new_points of
        (ms', existing_ts, added) \<Rightarrow> (sort_key ts_key ms', added))"

definition merge :: "history_store \<Rightarrow> measurement list \<Rightarrow> history_store" where
  "merge s new_points = s\<lparr>measurements := fst (merge_points (measurements s) new_points)\<rparr>"



text \<open>\<open>_async_save\<close> at wall-clock instant \<open>now\<close>. When the storage helper raises
  (\<open>fails\<close>), nothing is written and the exception propagates.\<close>

definition async_save :: "int \<Rightarrow> bool \<Rightarrow> history_store \<Rightarrow> error + history_store" where
  "async_save now fails s =
     (if fails then Inl StorageError
      else Inr (s\<lparr>store := \<lparr>document = Some \<lparr>snap_eic = Some (store_eic s),
                                              snap_last_fetch = Some now,
                                              snap_point_count = Some (length (measurements s)),
                                              snap_measurements = Some (measurements s)\<rparr>,
                            save_count = save_count (store s) + 1\<rparr>\<rparr>))"

text \<open>
  The \<open>while chunk_start < end\<close> loop of \<open>async_fetch_history\<close>. The client's
  \<open>async_get_metering_data\<close> is the function \<open>fetch\<close> from the requested window to what
  the call returns or raises; the windows of one run are pairwise different, so a function
  of the window describes any sequence of outcomes. \<open>except Exception\<close> catches every
  \<open>error\<close>. The loop returns \<open>all_new\<close> and the windows requested, in order.
\<close>

function fetch_chunks ::
  "(int \<Rightarrow> int \<Rightarrow> error + measurement list) \<Rightarrow> int \<Rightarrow> int \<Rightarrow> measurement list
     \<Rightarrow> (int \<times> int) list \<Rightarrow> measurement list \<times> (int \<times> int) list" where
  "fetch_chunks fetch chunk_start end all_new requests =
     (if chunk_start < end
      then (let chunk_end = min (chunk_start + timedelta_days API_MAX_WINDOW_DAYS) end;
                all_new' = (case fetch chunk_start chunk_end of
                              Inr chunk \<Rightarrow> all_new @ chunk
                            | Inl e \<Rightarrow> all_new)
            in fetch_chunks fetch chunk_end end all_new' (requests @ [(chunk_start, chunk_end)]))
      else (all_new, requests))"
  by pat_completeness auto
termination
  by (relation "measure (\<lambda>(fetch, chunk_start, end, all_new, requests). nat (end - chunk_start))")
     (auto simp: timedelta_days_def API_MAX_WINDOW_DAYS_def)

text \<open>
  \<open>async_fetch_history\<close>: \<open>now\<close> is the wall clock at entry, \<open>save_now\<close> and
  \<open>save_fails\<close> describe the save. The result is what the call returns or raises, the
  store afterwards and the windows requested.
\<close>

definition async_fetch_history ::
  "int \<Rightarrow> (int \<Rightarrow> int \<Rightarrow> error + measurement list) \<Rightarrow> int \<Rightarrow> bool \<Rightarrow> history_store \<Rightarrow> int
     \<Rightarrow> (error + unit) \<times> history_store \<times> (int \<times> int) list" where
  "async_fetch_history now fetch save_now save_fails s days =
     (let end = now;
          start = end - timedelta_days days;
          (all_new, requests) = fetch_chunks fetch start end [] []
      in if all_new \<noteq> []
         then (let s' = merge s all_new in
               case async_save save_now save_fails s' of
                 Inl e \<Rightarrow> (Inl e, s', requests)
               | Inr s'' \<Rightarrow> (Inr (), s'', requests))
         else (Inr (), s, requests))"

text \<open>The windows the loop requests: the loop without the calls.\<close>

function chunk_windows :: "int \<Rightarrow> int \<Rightarrow> (int \<times> int) list" where
  "chunk_windows chunk_start end =
     (if chunk_start < end
      then (let chunk_end = min (chunk_start + timedelta_days API_MAX_WINDOW_DAYS) end
            in (chunk_start, chunk_end) # chunk_windows chunk_end end)
      else [])"
  by pat_completeness auto
termination
  by (relation "measure (\<lambda>(chunk_start, end). nat (end - chunk_start))")
     (auto simp: timedelta_days_def API_MAX_WINDOW_DAYS_def)

text \<open>What one window contributes to \<open>all_new\<close>: the chunk, or nothing when the call
  raised.\<close>

definition chunk_result ::
  "(int \<Rightarrow> int \<Rightarrow> error + measurement list) \<Rightarrow> int \<times> int \<Rightarrow> measurement list" where
  "chunk_result fetch w = (case fetch (fst w) (snd w) of Inr chunk \<Rightarrow> chunk | Inl e \<Rightarrow> [])"

text \<open>
  \<open>tiles a b ws\<close>: the windows \<open>ws\<close> are half-open intervals that follow one another
  from \<open>a\<close> to \<open>b\<close>, each starting where the one before ends, none empty and none longer
  than the API's maximal window.
\<close>

fun tiles :: "int \<Rightarrow> int \<Rightarrow> (int \<times> int) list \<Rightarrow> bool" where
  "tiles a b [] = (a = b)"
| "tiles a b ((s, e) # ws) =
     (s = a \<and> s < e \<and> e - s \<le> timedelta_days API_MAX_WINDOW_DAYS \<and> tiles e b ws)"

text \<open>The invariant of the data model: timestamp keys ascending and pairwise different.\<close>

definition cache_inv :: "measurement list \<Rightarrow> bool" where
  "cache_inv ms = (sorted (map ts_key ms) \<and> distinct (map ts_key ms))"



section \<open>API client (\<open>api.py\<close>)\<close>

text \<open>\<open>EleringEstfeedApiClient\<close>: the token cache and the rate-limit state. The cached
  token is whatever true value the token endpoint sent as \<open>access_token\<close>.\<close>

record client =
  access_token :: "json option"
  token_expiry :: real
  next_allowed_mono :: real
  last_request_time :: "int option"
  blocked_count :: int
  rate_limit_headers :: "(string \<times> int) list"

definition TOKEN_EXPIRY_MARGIN :: int where
  "TOKEN_EXPIRY_MARGIN = 30"


subsection \<open>Python's truth values, \<open>or\<close>, \<open>dict.get\<close> and \<open>int()\<close>\<close>

fun truthy :: "json \<Rightarrow> bool" where
  "truthy JNull = False"
| "truthy (JBool b) = b"
| "truthy (JInt i) = (i \<noteq> 0)"
| "truthy (JFloat r) = (r \<noteq> 0)"
| "truthy (JStr s) = (s \<noteq> [])"
| "truthy (JList xs) = (xs \<noteq> [])"
| "truthy (JDict d) = (d \<noteq> [])"

definition py_or :: "json \<Rightarrow> json \<Rightarrow> json" where
  "py_or a b = (if truthy a then a else b)"

text \<open>\<open>d.get(k)\<close>: \<open>None\<close> for a missing key.\<close>

definition dict_get :: "(string \<times> json) list \<Rightarrow> string \<Rightarrow> json" where
  "dict_get d k = (case map_of d k of None \<Rightarrow> JNull | Some v \<Rightarrow> v)"

text \<open>
  \<open>int(s)\<close> for an ASCII string: white space around the number is dropped, a sign may
  come first, then decimal digits, where single underscores may stand between digits.
\<close>

definition is_space :: "char \<Rightarrow> bool" where
  "is_space c = (c \<in> set [CHR '' '', CHR 0x09, CHR 0x0A, CHR 0x0B, CHR 0x0C, CHR 0x0D,
                            CHR 0x1C, CHR 0x1D, CHR 0x1E, CHR 0x1F])"

definition is_digit :: "char \<Rightarrow> bool" where
  "is_digit c = (c \<in> set ''0123456789'')"

definition digit_value :: "char \<Rightarrow> nat" where
  "digit_value c = of_char c - 48"

fun parse_digits :: "nat \<Rightarrow> string \<Rightarrow> nat option" where
  "parse_digits acc [] = Some acc"
| "parse_digits acc (c # cs) =
     (if is_digit c then parse_digits (acc * 10 + digit_value c) cs
      else if c = CHR ''_'' \<and> cs \<noteq> [] \<and> is_digit (hd cs) then parse_digits acc cs
      else None)"

definition parse_unsigned :: "string \<Rightarrow> nat option" where
  "parse_unsigned s = (if s \<noteq> [] \<and> is_digit (hd s) then parse_digits 0 s else None)"

definition strip :: "string \<Rightarrow> string" where
  "strip s = rev (dropWhile is_space (rev (dropWhile is_space s)))"

definition int_of_str :: "string \<Rightarrow> int option" where
  "int_of_str s =
     (case strip s of
        [] \<Rightarrow> None
      | c # cs \<Rightarrow>
          if c = CHR ''-'' then map_option (\<lambda>n. - int n) (parse_unsigned cs)
          else if c = CHR ''+'' then map_option int (parse_unsigned cs)
          else map_option int (parse_unsigned (c # cs)))"

text \<open>\<open>int(v)\<close>: a float is cut towards zero, \<open>None\<close>, a list or a dict raise
  \<open>TypeError\<close>, a string that is no number raises \<open>ValueError\<close>.\<close>

fun py_int :: "json \<Rightarrow> error + int" where
  "py_int (JInt i) = Inr i"
| "py_int (JBool b) = Inr (if b then 1 else 0)"
| "py_int (JFloat r) = Inr (if 0 \<le> r then \<lfloor>r\<rfloor> else \<lceil>r\<rceil>)"
| "py_int (JStr s) = (case int_of_str s of None \<Rightarrow> Inl PyValueError | Some i \<Rightarrow> Inr i)"
| "py_int JNull = Inl PyTypeError"
| "py_int (JList xs) = Inl PyTypeError"
| "py_int (JDict d) = Inl PyTypeError"

subsection \<open>Token manager\<close>

text \<open>What the POST to the token endpoint gives: a transport failure
  (\<open>aiohttp.ClientError\<close>), or a response with its status and its body decoded as JSON
  (\<open>None\<close> when the body is no JSON and \<open>resp.json\<close> raises \<open>ValueError\<close>).\<close>

datatype token_reply = TokenTransportError | TokenResponse nat "json option"

text \<open>
  \<open>async_get_access_token\<close> at monotonic time \<open>now\<close>. The result is the token returned
  or the exception raised, the client afterwards, and the number of requests sent to the
  token endpoint.
\<close>

definition async_get_access_token ::
  "client \<Rightarrow> real \<Rightarrow> token_reply \<Rightarrow> (error + json) \<times> client \<times> nat" where
  "async_get_access_token c now reply =
     (if access_token c \<noteq> None \<and> now < token_expiry c
      then (Inr (the (access_token c)), c, 0)
      else
         (case reply of
            TokenTransportError \<Rightarrow> (Inl EleringConnectionError, c, 1)
          | TokenResponse status body \<Rightarrow>
              if status = 401 \<or> status = 403 then (Inl EleringAuthError, c, 1)
              else if status \<noteq> 200 then (Inl EleringEstfeedError, c, 1)
              else (case body of
                      None \<Rightarrow> (Inl PyValueError, c, 1)
                    | Some (JDict result) \<Rightarrow>
                        (let token = dict_get result ''access_token'' in
                         if \<not> truthy token then (Inl EleringAuthError, c, 1)
                         else (case py_int (case map_of result ''expires_in'' of
                                              None \<Rightarrow> JInt 300 | Some v \<Rightarrow> v) of
                                 Inl e \<Rightarrow> (Inl e, c, 1)
                               | Inr expires_in \<Rightarrow>
                                   (Inr token,
                                    c\<lparr>access_token := Some token,
                                      token_expiry := now + real_of_int expires_in
                                                      - real_of_int TOKEN_EXPIRY_MARGIN\<rparr>,
                                    1)))
                    | Some other \<Rightarrow> (Inl PyAttributeError, c, 1))))"

subsection \<open>Rate limiter\<close>

text \<open>\<open>_async_enforce_rate_limit\<close> at monotonic time \<open>now\<close>: the client afterwards and
  the duration handed to \<open>asyncio.sleep\<close>, when it is called.\<close>

definition async_enforce_rate_limit :: "client \<Rightarrow> real \<Rightarrow> client \<times> real option" where
  "async_enforce_rate_limit c now =
     (if now < next_allowed_mono c
      then (let wait = next_allowed_mono c - now
            in (c\<lparr>blocked_count := blocked_count c + 1\<rparr>, Some wait))
      else (c, None))"

text \<open>
  A sequence of calls as in \<open>test_rate_limiter_increments_blocked_count\<close>: before each
  call \<open>_next_allowed_mono\<close> is set, then the limiter runs at the given time. The result
  is the client after the last call and what each call slept.
\<close>

fun enforce_calls :: "client \<Rightarrow> (real \<times> real) list \<Rightarrow> client \<times> real option list" where
  "enforce_calls c [] = (c, [])"
| "enforce_calls c ((next_allowed, now) # rest) =
     (case async_enforce_rate_limit (c\<lparr>next_allowed_mono := next_allowed\<rparr>) now of
        (c', wait) \<Rightarrow> (case enforce_calls c' rest of (c'', waits) \<Rightarrow> (c'', wait # waits)))"



subsection \<open>Authenticated requests\<close>



subsection \<open>Response normalizer\<close>

text \<open>\<open>isinstance(item, dict) and "measurements" in item\<close>.\<close>

fun is_wrapper :: "json \<Rightarrow> bool" where
  "is_wrapper (JDict d) = (map_of d ''measurements'' \<noteq> None)"
| "is_wrapper other = False"

text \<open>\<open>item.get("meteringPointEic") or item.get("eic") or ""\<close> and
  \<open>item["measurements"]\<close>, read on wrappers only.\<close>

fun item_eic :: "json \<Rightarrow> json" where
  "item_eic (JDict d) =
     py_or (py_or (dict_get d ''meteringPointEic'') (dict_get d ''eic'')) (JStr [])"
| "item_eic other = JStr []"

fun item_measurements :: "json \<Rightarrow> json" where
  "item_measurements (JDict d) = dict_get d ''measurements''"
| "item_measurements other = JNull"

text \<open>The \<open>for item in data\<close> loop: \<open>data\<close> is the whole list, the second argument what
  is left of it.\<close>

fun scan_items :: "json list \<Rightarrow> json list \<Rightarrow> string \<Rightarrow> json" where
  "scan_items data [] eic = JList []"
| "scan_items data (item # rest) eic =
     (if is_wrapper item
      then (if item_eic item = JStr eic then item_measurements item
            else if length data = 1 then item_measurements item
            else scan_items data rest eic)
      else JList data)"

definition unwrap :: "(string \<times> json) list \<Rightarrow> json" where
  "unwrap d =
     py_or (py_or (py_or (py_or (dict_get d ''meteringData'') (dict_get d ''data''))
                         (dict_get d ''content''))
                  (dict_get d ''measurements''))
           (JList [])"

text \<open>The keys \<open>unwrap\<close> tries, in its order.\<close>

definition unwrap_keys :: "string list" where
  "unwrap_keys = [''meteringData'', ''data'', ''content'', ''measurements'']"

text \<open>\<open>_extract_measurements\<close>: the value returned, which is \<open>item["measurements"]\<close>
  as it is when a wrapper is chosen.\<close>

definition extract_measurements :: "json \<Rightarrow> string \<Rightarrow> json" where
  "extract_measurements data eic =
     (case (case data of JDict d \<Rightarrow> unwrap d | other \<Rightarrow> data) of
        JList items \<Rightarrow> scan_items items items eic
      | other \<Rightarrow> JList [])"

section \<open>Example inputs\<close>

text \<open>Two measurements and the EIC of the test fixtures (\<open>tests/conftest.py\<close>), and
  stores built from them.\<close>

definition point_a :: measurement where
  "point_a = \<lparr>timestamp = Some ''2025-01-01T00:00:00+0000'',
              payload = [(''energyIn'', JFloat 1.23), (''unit'', JStr ''kWh'')]\<rparr>"

definition point_b :: measurement where
  "point_b = \<lparr>timestamp = Some ''2025-01-01T01:00:00+0000'',
              payload = [(''energyIn'', JFloat 2.34), (''unit'', JStr ''kWh'')]\<rparr>"

definition fresh_store :: history_store where
  "fresh_store = \<lparr>store_eic = ''38ZEE-1000000A-B'', store = \<lparr>document = None, save_count = 0\<rparr>,
                  measurements = [], last_fetch = None\<rparr>"

definition stale_store :: history_store where
  "stale_store = \<lparr>store_eic = ''38ZEE-1000000A-B'', store = \<lparr>document = None, save_count = 0\<rparr>,
                  measurements = [point_a], last_fetch = None\<rparr>"


text \<open>A client as constructed, a client with a token cached until monotonic time 100, the
  headers of a response, and entries of a metering-data response.\<close>

definition new_client :: client where
  "new_client = \<lparr>access_token = None, token_expiry = 0, next_allowed_mono = 0,
                 last_request_time = None, blocked_count = 0, rate_limit_headers = []\<rparr>"

definition cached_client :: client where
  "cached_client = \<lparr>access_token = Some (JStr ''mock-access-token''), token_expiry = 100,
                    next_allowed_mono = 0, last_request_time = None, blocked_count = 0,
                    rate_limit_headers = []\<rparr>"


definition wrapper_a :: json where
  "wrapper_a = JDict [(''meteringPointEic'', JStr ''A''),
                      (''measurements'', JList [JDict [(''timestamp'', JStr ''t2'')]])]"

definition wrapper_b :: json where
  "wrapper_b = JDict [(''eic'', JStr ''B''),
                      (''measurements'', JList [JDict [(''timestamp'', JStr ''t1'')]])]"

definition flat_record :: json where
  "flat_record = JDict [(''timestamp'', JStr ''t0''), (''energyIn'', JFloat 1.23)]"

declare fetch_chunks.simps [simp del] chunk_windows.simps [simp del]

section \<open>Properties of the merge\<close>

lemma merge_loop_keys:
  "merge_loop ms (ts_key ` set ms) added new = (ms', ex', added') \<Longrightarrow>
   ex' = ts_key ` set ms'"
proof (induction new arbitrary: ms added)
  case Nil
  then show ?case by auto
next
  case (Cons p new)
  show ?case
  proof (cases "ts_key p \<noteq> '''' \<and> ts_key p \<notin> ts_key ` set ms")
    case True
    have "ts_key ` set (ms @ [p]) = insert (ts_key p) (ts_key ` set ms)"
      by simp
    with True Cons.prems have
      "merge_loop (ms @ [p]) (ts_key ` set (ms @ [p])) (added + 1) new = (ms', ex', added')"
      by (simp add: Let_def)
    then show ?thesis by (rule Cons.IH)
  next
    case False
    with Cons.prems have "merge_loop ms (ts_key ` set ms) added new = (ms', ex', added')"
      by (auto simp: Let_def)
    then show ?thesis by (rule Cons.IH)
  qed
qed

lemma merge_loop_covers:
  "merge_loop ms existing_ts added new = (ms', ex', added') \<Longrightarrow>
   existing_ts \<subseteq> ex' \<and> (\<forall>p \<in> set new. ts_key p \<noteq> '''' \<longrightarrow> ts_key p \<in> ex')"
proof (induction new arbitrary: ms existing_ts added)
  case Nil
  then show ?case by simp
next
  case (Cons p new)
  show ?case
  proof (cases "ts_key p \<noteq> '''' \<and> ts_key p \<notin> existing_ts")
    case True
    with Cons.prems have
      "merge_loop (ms @ [p]) (insert (ts_key p) existing_ts) (added + 1) new = (ms', ex', added')"
      by (simp add: Let_def)
    from Cons.IH [OF this] show ?thesis by auto
  next
    case False
    with Cons.prems have "merge_loop ms existing_ts added new = (ms', ex', added')"
      by (auto simp: Let_def)
    from Cons.IH [OF this] False show ?thesis by auto
  qed
qed

lemma merge_loop_nothing_new:
  "\<forall>p \<in> set new. ts_key p = '''' \<or> ts_key p \<in> existing_ts \<Longrightarrow>
   merge_loop ms existing_ts added new = (ms, existing_ts, added)"
  by (induction new arbitrary: ms existing_ts added) (auto simp: Let_def)

lemma merge_loop_distinct:
  "distinct (map ts_key ms) \<Longrightarrow>
   merge_loop ms (ts_key ` set ms) added new = (ms', ex', added') \<Longrightarrow>
   distinct (map ts_key ms')"
proof (induction new arbitrary: ms added)
  case Nil
  then show ?case by simp
next
  case (Cons p new)
  show ?case
  proof (cases "ts_key p \<noteq> '''' \<and> ts_key p \<notin> ts_key ` set ms")
    case True
    have "ts_key ` set (ms @ [p]) = insert (ts_key p) (ts_key ` set ms)"
      by simp
    with True Cons.prems have loop:
      "merge_loop (ms @ [p]) (ts_key ` set (ms @ [p])) (added + 1) new = (ms', ex', added')"
      by (simp add: Let_def)
    from True Cons.prems(1) have "distinct (map ts_key (ms @ [p]))"
      by simp
    then show ?thesis using loop by (rule Cons.IH)
  next
    case False
    with Cons.prems have "merge_loop ms (ts_key ` set ms) added new = (ms', ex', added')"
      by (auto simp: Let_def)
    with Cons.prems(1) show ?thesis by (rule Cons.IH)
  qed
qed

lemma distinct_keys_sort_key:
  "distinct (map f (sort_key f xs)) = distinct (map f xs)"
  by (simp add: distinct_map)

lemma merge_points_sorted: "sorted (map ts_key (fst (merge_points ms new)))"
  by (simp add: merge_points_def split: prod.splits)

lemma merge_points_distinct:
  "distinct (map ts_key ms) \<Longrightarrow> distinct (map ts_key (fst (merge_points ms new)))"
proof -
  assume d: "distinct (map ts_key ms)"
  obtain ms' ex' added' where
    loop: "merge_loop ms (ts_key ` set ms) 0 new = (ms', ex', added')"
    by (metis prod_cases3)
  have "distinct (map ts_key ms')"
    using d loop by (rule merge_loop_distinct)
  then show ?thesis
    by (simp add: merge_points_def loop distinct_keys_sort_key)
qed

lemma merge_points_again:
  "merge_points (fst (merge_points ms new)) new = (fst (merge_points ms new), 0)"
proof -
  obtain ms' ex' added' where
    loop: "merge_loop ms (ts_key ` set ms) 0 new = (ms', ex', added')"
    by (metis prod_cases3)
  let ?once = "sort_key ts_key ms'"
  have once: "fst (merge_points ms new) = ?once"
    by (simp add: merge_points_def loop)
  have ex': "ex' = ts_key ` set ms'"
    using loop by (rule merge_loop_keys)
  have "\<forall>p \<in> set new. ts_key p \<noteq> '''' \<longrightarrow> ts_key p \<in> ex'"
    using merge_loop_covers [OF loop] by blast
  then have "\<forall>p \<in> set new. ts_key p = '''' \<or> ts_key p \<in> ts_key ` set ?once"
    using ex' by auto
  then have "merge_loop ?once (ts_key ` set ?once) 0 new = (?once, ts_key ` set ?once, 0)"
    by (rule merge_loop_nothing_new)
  moreover have "sort_key ts_key ?once = ?once"
    by (rule sort_key_id_if_sorted) simp
  ultimately have "merge_points ?once new = (?once, 0)"
    unfolding merge_points_def by simp
  then show ?thesis
    unfolding once .
qed

text \<open>
  Claim C4. Merging the same batch of points a second time leaves the store exactly as the
  first merge left it, whatever the cache held before: no point is added and the order,
  ascending by timestamp key, does not change.
\<close>

theorem merge_idempotent: "merge (merge s new) new = merge s new"
  by (simp add: merge_def merge_points_again)

section \<open>Properties of the backfill\<close>


lemma fetch_chunks_eq:
  "fetch_chunks fetch cs e all_new rq =
     (all_new @ concat (map (chunk_result fetch) (chunk_windows cs e)), rq @ chunk_windows cs e)"
proof (induction fetch cs e all_new rq rule: fetch_chunks.induct)
  case (1 fetch cs e all_new rq)
  show ?case
  proof (cases "cs < e")
    case True
    let ?ce = "min (cs + timedelta_days API_MAX_WINDOW_DAYS) e"
    let ?an = "case fetch cs ?ce of Inr chunk \<Rightarrow> all_new @ chunk | Inl e \<Rightarrow> all_new"
    have an: "?an = all_new @ chunk_result fetch (cs, ?ce)"
      by (simp add: chunk_result_def split: sum.splits)
    have "fetch_chunks fetch cs e all_new rq
          = fetch_chunks fetch ?ce e ?an (rq @ [(cs, ?ce)])"
      using True by (subst fetch_chunks.simps) (simp add: Let_def)
    also have "\<dots> = (?an @ concat (map (chunk_result fetch) (chunk_windows ?ce e)),
                     (rq @ [(cs, ?ce)]) @ chunk_windows ?ce e)"
      using True by (intro "1.IH") auto
    also have "chunk_windows cs e = (cs, ?ce) # chunk_windows ?ce e"
      using True by (subst chunk_windows.simps) (simp add: Let_def)
    ultimately show ?thesis
      by (simp add: an)
  next
    case False
    then show ?thesis
      by (simp add: fetch_chunks.simps [of _ cs e] chunk_windows.simps [of cs e])
  qed
qed

lemma chunk_windows_tiles: "cs \<le> e \<Longrightarrow> tiles cs e (chunk_windows cs e)"
proof (induction cs e rule: chunk_windows.induct)
  case (1 cs e)
  show ?case
  proof (cases "cs < e")
    case True
    let ?ce = "min (cs + timedelta_days API_MAX_WINDOW_DAYS) e"
    have w: "chunk_windows cs e = (cs, ?ce) # chunk_windows ?ce e"
      using True by (subst chunk_windows.simps) (simp add: Let_def)
    have "tiles ?ce e (chunk_windows ?ce e)"
      using True by (intro "1.IH") auto
    moreover have "cs < ?ce" "?ce - cs \<le> timedelta_days API_MAX_WINDOW_DAYS"
      using True by (auto simp: timedelta_days_def API_MAX_WINDOW_DAYS_def)
    ultimately show ?thesis
      unfolding w by simp
  next
    case False
    with "1.prems" show ?thesis
      by (subst chunk_windows.simps) simp
  qed
qed

lemma chunk_windows_length:
  "cs \<le> e \<Longrightarrow> int (length (chunk_windows cs e))
      = (e - cs + timedelta_days API_MAX_WINDOW_DAYS - 1) div timedelta_days API_MAX_WINDOW_DAYS"
proof (induction cs e rule: chunk_windows.induct)
  case (1 cs e)
  define W where "W = timedelta_days API_MAX_WINDOW_DAYS"
  have W: "0 < W" by (simp add: W_def timedelta_days_def API_MAX_WINDOW_DAYS_def)
  show ?case
  proof (cases "cs < e")
    case True
    let ?ce = "min (cs + W) e"
    have w: "chunk_windows cs e = (cs, ?ce) # chunk_windows ?ce e"
      using True by (subst chunk_windows.simps) (simp add: Let_def W_def)
    have ih: "int (length (chunk_windows ?ce e)) = (e - ?ce + W - 1) div W"
      unfolding W_def using True W by (intro "1.IH") (auto simp: W_def)
    show ?thesis
    proof (cases "cs + W \<le> e")
      case True
      then have ce: "?ce = cs + W" by simp
      have "(e - cs + W - 1) div W = ((e - (cs + W) + W - 1) + W) div W"
        by (simp add: algebra_simps)
      also have "\<dots> = (e - (cs + W) + W - 1) div W + 1"
        using W by simp
      finally show ?thesis
        using ih unfolding w ce W_def [symmetric] by simp
    next
      case False
      then have ce: "?ce = e" by simp
      define x where "x = e - cs - 1"
      have x: "0 \<le> x" "x < W" using False \<open>cs < e\<close> by (auto simp: x_def)
      have "(e - cs + W - 1) div W = (x + W) div W"
        by (simp add: x_def algebra_simps)
      also have "\<dots> = x div W + 1" using W by simp
      also have "x div W = 0" using x by simp
      finally have "(e - cs + W - 1) div W = 1" by simp
      moreover have "chunk_windows e e = []"
        by (subst chunk_windows.simps) simp
      ultimately show ?thesis
        unfolding w ce W_def [symmetric] by simp
    qed
  next
    case False
    with "1.prems" have "cs = e" by simp
    then show ?thesis
      using W by (subst chunk_windows.simps) (simp add: W_def [symmetric])
  qed
qed

lemma async_fetch_history_eq:
  "async_fetch_history now fetch save_now save_fails s days =
     (let requests = chunk_windows (now - timedelta_days days) now;
          all_new = concat (map (chunk_result fetch) requests)
      in if all_new \<noteq> []
         then (case async_save save_now save_fails (merge s all_new) of
                 Inl e \<Rightarrow> (Inl e, merge s all_new, requests)
               | Inr s'' \<Rightarrow> (Inr (), s'', requests))
         else (Inr (), s, requests))"
  unfolding async_fetch_history_def fetch_chunks_eq Let_def by simp

lemma async_save_measurements:
  "async_save now fails s = Inr s' \<Longrightarrow> measurements s' = measurements s"
  by (auto simp: async_save_def split: if_splits)

lemma async_fetch_history_requests:
  "snd (snd (async_fetch_history now fetch save_now save_fails s days))
     = chunk_windows (now - timedelta_days days) now"
  by (simp add: async_fetch_history_eq Let_def split: sum.splits)

lemma async_fetch_history_measurements:
  "measurements (fst (snd (async_fetch_history now fetch save_now save_fails s days)))
     = (let all_new = concat (map (chunk_result fetch)
                                (chunk_windows (now - timedelta_days days) now))
        in if all_new \<noteq> [] then fst (merge_points (measurements s) all_new)
           else measurements s)"
  by (auto simp: async_fetch_history_eq Let_def merge_def async_save_def split: sum.splits)

lemma async_fetch_history_result:
  "fst (async_fetch_history now fetch save_now save_fails s days)
     = (if save_fails \<and> concat (map (chunk_result fetch)
                                 (chunk_windows (now - timedelta_days days) now)) \<noteq> []
        then Inl StorageError else Inr ())"
  by (auto simp: async_fetch_history_eq Let_def async_save_def split: sum.splits)


lemma days_count: "1 \<le> days \<Longrightarrow>
  (timedelta_days days + timedelta_days API_MAX_WINDOW_DAYS - 1) div timedelta_days API_MAX_WINDOW_DAYS
   = (days + 30) div 31"
proof -
  have "(timedelta_days days + timedelta_days API_MAX_WINDOW_DAYS - 1) div timedelta_days API_MAX_WINDOW_DAYS
      = ((days + 31) * 86400000000 - 1) div (86400000000 * 31)"
    by (simp add: timedelta_days_def API_MAX_WINDOW_DAYS_def algebra_simps)
  also have "\<dots> = (((days + 31) * 86400000000 - 1) div 86400000000) div 31"
    by (rule zdiv_zmult2_eq) simp
  also have "((days + 31) * 86400000000 - 1) div 86400000000 = days + 30"
    by simp
  finally show ?thesis .
qed

text \<open>
  Claim C5. For every \<open>days \<ge> 1\<close> the windows \<open>async_fetch_history\<close> requests, one
  call of the client's data fetch each, tile the window from \<open>now - days\<close> to \<open>now\<close>:
  the first starts at \<open>now - days\<close>, each next one starts where the one before ends, the
  last ends at \<open>now\<close>, none is empty and none spans more than 31 days. There are
  \<open>\<lceil>days / 31\<rceil>\<close> of them, so 2 for \<open>days = 40\<close>.
\<close>

theorem fetch_history_chunks:
  "1 \<le> days \<Longrightarrow>
   (let requests = snd (snd (async_fetch_history now fetch save_now save_fails s days))
    in tiles (now - timedelta_days days) now requests
       \<and> int (length requests) = (days + 30) div 31
       \<and> (days = 40 \<longrightarrow> length requests = 2))"
proof -
  assume d: "1 \<le> days"
  let ?start = "now - timedelta_days days"
  have le: "?start \<le> now"
    using d by (simp add: timedelta_days_def)
  have n: "int (length (chunk_windows ?start now)) = (days + 30) div 31"
    using chunk_windows_length [OF le] days_count [OF d] by simp
  show ?thesis
    unfolding async_fetch_history_requests Let_def
    using chunk_windows_tiles [OF le] n by auto
qed

theorem fetch_history_chunks_witness:
  "(1::int) \<le> 40
   \<and> snd (snd (async_fetch_history 0 (\<lambda>a b. Inr [point_a]) 7 False fresh_store 40))
       = [(- 3456000000000, - 777600000000), (- 777600000000, 0)]
   \<and> tiles (0 - timedelta_days 40) 0
        (snd (snd (async_fetch_history 0 (\<lambda>a b. Inr [point_a]) 7 False fresh_store 40)))
   \<and> length (snd (snd (async_fetch_history 0 (\<lambda>a b. Inr [point_a]) 7 False fresh_store 40))) = 2"
proof -
  have h: "(1::int) \<le> 40" by simp
  have w: "snd (snd (async_fetch_history 0 (\<lambda>a b. Inr [point_a]) 7 False fresh_store 40))
       = [(- 3456000000000, - 777600000000), (- 777600000000, 0)]"
    by (simp add: async_fetch_history_requests chunk_windows.simps Let_def timedelta_days_def
        API_MAX_WINDOW_DAYS_def)
  show ?thesis
    using h w fetch_history_chunks [OF h, of 0 "\<lambda>a b. Inr [point_a]" 7 False fresh_store]
    by (simp add: Let_def)
qed

text \<open>
  Claim C6. Whatever the chunk fetches return or raise, \<open>async_fetch_history\<close> requests
  every window of the backfill, and the points of all the chunks that did arrive, in the
  order of the windows, are what is merged into the cache. The call raises only when points
  were fetched and saving them fails; a failed chunk fetch never makes it raise.
\<close>

theorem chunk_failure_tolerated:
  "(let all_new = concat (map (chunk_result fetch)
                            (chunk_windows (now - timedelta_days days) now))
    in snd (snd (async_fetch_history now fetch save_now save_fails s days))
         = chunk_windows (now - timedelta_days days) now
       \<and> measurements (fst (snd (async_fetch_history now fetch save_now save_fails s days)))
         = (if all_new \<noteq> [] then fst (merge_points (measurements s) all_new)
            else measurements s)
       \<and> fst (async_fetch_history now fetch save_now save_fails s days)
         = (if save_fails \<and> all_new \<noteq> [] then Inl StorageError else Inr ()))"
  using async_fetch_history_result [of now fetch save_now save_fails s days]
        async_fetch_history_requests [of now fetch save_now save_fails s days]
        async_fetch_history_measurements [of now fetch save_now save_fails s days]
  by (simp add: Let_def)

theorem chunk_failure_tolerated_witness:
  "fst (async_fetch_history 0
          (\<lambda>a b. if b = 0 then Inr [point_b, point_a] else Inl EleringConnectionError)
          7 False fresh_store 40) = Inr ()
   \<and> snd (snd (async_fetch_history 0
          (\<lambda>a b. if b = 0 then Inr [point_b, point_a] else Inl EleringConnectionError)
          7 False fresh_store 40))
       = [(- 3456000000000, - 777600000000), (- 777600000000, 0)]
   \<and> measurements (fst (snd (async_fetch_history 0
          (\<lambda>a b. if b = 0 then Inr [point_b, point_a] else Inl EleringConnectionError)
          7 False fresh_store 40)))
       = [point_a, point_b]"
proof -
  let ?fetch = "\<lambda>a b::int. if b = 0 then Inr [point_b, point_a] else Inl EleringConnectionError"
  have w: "chunk_windows (0 - timedelta_days 40) 0
             = [(- 3456000000000, - 777600000000), (- 777600000000, 0)]"
    by (simp add: chunk_windows.simps Let_def timedelta_days_def API_MAX_WINDOW_DAYS_def)
  have m: "fst (merge_points (measurements fresh_store) [point_b, point_a]) = [point_a, point_b]"
    by (simp add: merge_points_def fresh_store_def point_a_def point_b_def ts_key_def Let_def)
  note t = chunk_failure_tolerated [of ?fetch 0 40 7 False fresh_store, unfolded Let_def w]
  from t show ?thesis
    by (simp add: chunk_result_def m)
qed

text \<open>
  A backfill over a cache that already holds the one point fetched: the merge adds no
  point and leaves the cache as it was, and yet the snapshot is written.
\<close>

theorem save_without_new_point:
  "snd (merge_points (measurements stale_store) [point_a]) = 0
   \<and> fst (fetch_chunks (\<lambda>a b. Inr [point_a]) (0 - timedelta_days 1) 0 [] []) = [point_a]
   \<and> measurements (fst (snd (async_fetch_history 0 (\<lambda>a b. Inr [point_a]) 7 False stale_store 1)))
       = measurements stale_store
   \<and> save_count (store (fst (snd
        (async_fetch_history 0 (\<lambda>a b. Inr [point_a]) 7 False stale_store 1)))) = 1
   \<and> save_count (store stale_store) = 0
   \<and> document (store (fst (snd
        (async_fetch_history 0 (\<lambda>a b. Inr [point_a]) 7 False stale_store 1))))
       \<noteq> document (store stale_store)"
  by (simp add: async_fetch_history_def fetch_chunks.simps Let_def timedelta_days_def
      API_MAX_WINDOW_DAYS_def merge_def merge_points_def async_save_def stale_store_def
      point_a_def ts_key_def)

text \<open>
  Claim C2, amended. \<open>async_fetch_history\<close> writes the snapshot exactly when the chunks
  that arrived hold at least one point (\<open>all_new\<close> is not empty) and the save does not
  fail, whether or not the merge added any of those points to the cache; the document
  written holds the merged cache. When no point was fetched, cache and storage are left
  as they were.
\<close>

theorem save_iff_fetched:
  "(let all_new = fst (fetch_chunks fetch (now - timedelta_days days) now [] []);
        s' = fst (snd (async_fetch_history now fetch save_now save_fails s days))
    in save_count (store s')
         = save_count (store s) + (if all_new \<noteq> [] \<and> \<not> save_fails then 1 else 0)
       \<and> (all_new \<noteq> [] \<and> \<not> save_fails \<longrightarrow>
            document (store s')
              = Some \<lparr>snap_eic = Some (store_eic s), snap_last_fetch = Some save_now,
                      snap_point_count = Some (length (measurements s')),
                      snap_measurements = Some (measurements s')\<rparr>)
       \<and> (all_new = [] \<or> save_fails \<longrightarrow> store s' = store s)
       \<and> (all_new = [] \<longrightarrow> s' = s))"
  by (auto simp: async_fetch_history_def Let_def merge_def async_save_def
           split: prod.splits sum.splits)

theorem save_iff_fetched_witness:
  "fst (fetch_chunks (\<lambda>a b. Inl EleringConnectionError) (0 - timedelta_days 1) 0 [] []) = []
   \<and> fst (snd (async_fetch_history 0 (\<lambda>a b. Inl EleringConnectionError) 7 False stale_store 1))
       = stale_store
   \<and> fst (fetch_chunks (\<lambda>a b. Inr [point_a]) (0 - timedelta_days 1) 0 [] []) \<noteq> []
   \<and> save_count (store (fst (snd
        (async_fetch_history 0 (\<lambda>a b. Inr [point_a]) 7 False stale_store 1))))
       = save_count (store stale_store) + 1"
proof -
  have a: "fst (fetch_chunks (\<lambda>a b. Inl EleringConnectionError) (0 - timedelta_days 1) 0 [] []) = []"
    by (simp add: fetch_chunks.simps Let_def timedelta_days_def API_MAX_WINDOW_DAYS_def)
  have b: "fst (fetch_chunks (\<lambda>a b. Inr [point_a]) (0 - timedelta_days 1) 0 [] []) = [point_a]"
    by (simp add: fetch_chunks.simps Let_def timedelta_days_def API_MAX_WINDOW_DAYS_def)
  show ?thesis
    using save_iff_fetched [of "\<lambda>a b. Inl EleringConnectionError" 0 1 7 False stale_store]
          save_iff_fetched [of "\<lambda>a b. Inr [point_a]" 0 1 7 False stale_store]
    unfolding Let_def a b by simp
qed

section \<open>The invariant of the cache\<close>

lemma merge_points_cache_inv:
  "distinct (map ts_key ms) \<Longrightarrow> cache_inv (fst (merge_points ms new))"
  unfolding cache_inv_def using merge_points_sorted merge_points_distinct by blast









section \<open>Rate limiter\<close>

lemma enforce_calls_blocked_count:
  "blocked_count (fst (enforce_calls c calls))
     = blocked_count c + int (length (filter (\<lambda>w. w \<noteq> None) (snd (enforce_calls c calls))))"
proof (induction calls arbitrary: c)
  case Nil
  show ?case by simp
next
  case (Cons call calls)
  obtain next_allowed now where call: "call = (next_allowed, now)"
    by (cases call)
  obtain c' wait where e:
    "async_enforce_rate_limit (c\<lparr>next_allowed_mono := next_allowed\<rparr>) now = (c', wait)"
    by (cases "async_enforce_rate_limit (c\<lparr>next_allowed_mono := next_allowed\<rparr>) now")
  have b: "blocked_count c' = blocked_count c + (if wait \<noteq> None then 1 else 0)"
    using e by (auto simp: async_enforce_rate_limit_def Let_def split: if_splits)
  obtain c'' waits where r: "enforce_calls c' calls = (c'', waits)"
    by (cases "enforce_calls c' calls")
  show ?case
    using Cons.IH [of c'] b
    by (simp add: call e r)
qed

text \<open>
  Claim C9. When \<open>now\<close> is strictly before \<open>next_allowed\<close>, the limiter sleeps for
  \<open>next_allowed - now\<close> and adds 1 to \<open>blocked_count\<close>, changing nothing else; otherwise
  it returns at once and leaves the client as it was. Over any sequence of calls
  \<open>blocked_count\<close> grows by the number of calls that slept.
\<close>

theorem enforce_waits_and_counts:
  "(now < next_allowed_mono c \<longrightarrow>
      async_enforce_rate_limit c now
        = (c\<lparr>blocked_count := blocked_count c + 1\<rparr>, Some (next_allowed_mono c - now)))
   \<and> (\<not> now < next_allowed_mono c \<longrightarrow> async_enforce_rate_limit c now = (c, None))
   \<and> blocked_count (fst (enforce_calls c calls))
       = blocked_count c + int (length (filter (\<lambda>w. w \<noteq> None) (snd (enforce_calls c calls))))"
  using enforce_calls_blocked_count [of c calls]
  by (simp add: async_enforce_rate_limit_def Let_def)

theorem enforce_waits_and_counts_witness:
  "(3::real) < next_allowed_mono (new_client\<lparr>next_allowed_mono := 5\<rparr>)
   \<and> async_enforce_rate_limit (new_client\<lparr>next_allowed_mono := 5\<rparr>) 3
       = (new_client\<lparr>next_allowed_mono := 5, blocked_count := 1\<rparr>, Some 2)
   \<and> \<not> (7::real) < next_allowed_mono new_client
   \<and> async_enforce_rate_limit new_client 7 = (new_client, None)
   \<and> snd (enforce_calls new_client [(5, 3), (5, 6), (9, 8)]) = [Some 2, None, Some 1]
   \<and> blocked_count (fst (enforce_calls new_client [(5, 3), (5, 6), (9, 8)])) = 2"
proof -
  have w: "snd (enforce_calls new_client [(5, 3), (5, 6), (9, 8)]) = [Some 2, None, Some 1]"
    by (simp add: async_enforce_rate_limit_def Let_def new_client_def)
  show ?thesis
    using enforce_waits_and_counts [of 3 "new_client\<lparr>next_allowed_mono := 5\<rparr>" "[]"]
          enforce_waits_and_counts [of 7 new_client "[(5, 3), (5, 6), (9, 8)]"]
    unfolding w by (simp add: new_client_def)
qed

section \<open>Token manager\<close>

lemma cache_miss:
  "access_token c = None \<or> \<not> now < token_expiry c \<Longrightarrow>
   (access_token c \<noteq> None \<and> now < token_expiry c) = False"
  by auto



text \<open>
  Claim C10. When the cache does not serve the call and the token endpoint answers 200 with
  a JSON object whose \<open>access_token\<close> is missing, \<open>null\<close> or the empty string,
  \<open>async_get_access_token\<close> raises \<open>EleringAuthError\<close> and leaves the client, with the
  token and the expiry cached before, as it was.
\<close>

theorem empty_access_token_is_auth_error:
  "access_token c = None \<or> \<not> now < token_expiry c \<Longrightarrow>
   map_of result ''access_token'' = None \<or> map_of result ''access_token'' = Some JNull
     \<or> map_of result ''access_token'' = Some (JStr '''') \<Longrightarrow>
   async_get_access_token c now (TokenResponse 200 (Some (JDict result)))
     = (Inl EleringAuthError, c, 1)"
proof -
  assume miss: "access_token c = None \<or> \<not> now < token_expiry c"
  assume "map_of result ''access_token'' = None \<or> map_of result ''access_token'' = Some JNull
     \<or> map_of result ''access_token'' = Some (JStr '''')"
  then have f: "\<not> truthy (dict_get result ''access_token'')"
    by (auto simp: dict_get_def)
  show ?thesis
    unfolding async_get_access_token_def cache_miss [OF miss]
    using f by (simp add: Let_def)
qed

theorem empty_access_token_is_auth_error_witness:
  "async_get_access_token cached_client 100
      (TokenResponse 200 (Some (JDict [(''access_token'', JStr ''''), (''expires_in'', JInt 600)])))
     = (Inl EleringAuthError, cached_client, 1)
   \<and> async_get_access_token cached_client 100
      (TokenResponse 200 (Some (JDict [(''access_token'', JNull)])))
     = (Inl EleringAuthError, cached_client, 1)
   \<and> async_get_access_token new_client 1
      (TokenResponse 200 (Some (JDict [(''expires_in'', JInt 600)])))
     = (Inl EleringAuthError, new_client, 1)"
proof -
  have a: "access_token cached_client = None \<or> \<not> (100::real) < token_expiry cached_client"
    by (simp add: cached_client_def)
  have b: "access_token new_client = None \<or> \<not> (1::real) < token_expiry new_client"
    by (simp add: new_client_def)
  show ?thesis
    using empty_access_token_is_auth_error [OF a,
            of "[(''access_token'', JStr ''''), (''expires_in'', JInt 600)]"]
          empty_access_token_is_auth_error [OF a, of "[(''access_token'', JNull)]"]
          empty_access_token_is_auth_error [OF b, of "[(''expires_in'', JInt 600)]"]
    by simp
qed

section \<open>Authenticated requests\<close>







section \<open>Response normalizer\<close>

lemma scan_items_skip:
  "\<forall>x \<in> set pre. is_wrapper x \<and> item_eic x \<noteq> JStr eic \<Longrightarrow> length data \<noteq> 1 \<Longrightarrow>
   scan_items data (pre @ rest) eic = scan_items data rest eic"
  by (induction pre) auto

lemma unwrap_first_truthy:
  "unwrap d =
     (case find (\<lambda>k. truthy (dict_get d k)) unwrap_keys of
        Some k \<Rightarrow> dict_get d k
      | None \<Rightarrow> JList [])"
  by (simp add: unwrap_def unwrap_keys_def py_or_def)

lemma extract_measurements_list:
  "extract_measurements (JList items) eic = scan_items items items eic"
  by (simp add: extract_measurements_def)

lemma extract_measurements_dict:
  "extract_measurements (JDict d) eic
     = (case unwrap d of
          JList items \<Rightarrow> extract_measurements (JList items) eic
        | other \<Rightarrow> JList [])"
  by (cases "unwrap d") (simp_all add: extract_measurements_def)

text \<open>
  A list of a wrapper for another EIC followed by a flat record, asked for EIC \<open>A\<close>: the
  whole list comes back, wrapper included, not an empty sequence.
\<close>

theorem mixed_list_returned_whole:
  "extract_measurements (JList [wrapper_b, flat_record]) ''A'' = JList [wrapper_b, flat_record]
   \<and> extract_measurements (JList [wrapper_b, flat_record]) ''A'' \<noteq> JList []
   \<and> is_wrapper wrapper_b \<and> \<not> is_wrapper flat_record \<and> item_eic wrapper_b \<noteq> JStr ''A''"
  by (simp add: extract_measurements_def wrapper_b_def flat_record_def py_or_def dict_get_def)

text \<open>
  Claim C7, amended. \<open>_extract_measurements\<close> never raises and resolves a response as
  follows. A top-level dict is replaced by its value under the first key of
  \<open>unwrap_keys\<close> whose value is true, and gives an empty sequence when there is no such key
  or the value is no list. In a list, wrappers for other EICs are passed over; a wrapper
  for the requested EIC reached that way gives its measurements; a list of one wrapper gives
  that wrapper's measurements whatever its EIC; an entry that is no wrapper reached that
  way makes the whole list the result, as it is, so a flat list is returned unchanged and
  so is a list that mixes other wrappers with flat records. A list of wrappers none of
  which matches, other than a list of one, gives an empty sequence, and so does a value that
  is neither a dict nor a list.
\<close>

theorem extract_measurements_cases:
  "extract_measurements (JDict d) eic
     = (case find (\<lambda>k. truthy (dict_get d k)) unwrap_keys of
          None \<Rightarrow> JList []
        | Some k \<Rightarrow> (case dict_get d k of
                       JList items \<Rightarrow> extract_measurements (JList items) eic
                     | other \<Rightarrow> JList []))
   \<and> ((\<forall>x \<in> set pre. is_wrapper x \<and> item_eic x \<noteq> JStr eic)
        \<and> is_wrapper w \<and> item_eic w = JStr eic
      \<longrightarrow> extract_measurements (JList (pre @ w # post)) eic = item_measurements w)
   \<and> (is_wrapper w \<longrightarrow> extract_measurements (JList [w]) eic = item_measurements w)
   \<and> ((\<forall>x \<in> set pre. is_wrapper x \<and> item_eic x \<noteq> JStr eic) \<and> \<not> is_wrapper y
      \<longrightarrow> extract_measurements (JList (pre @ y # post)) eic = JList (pre @ y # post))
   \<and> ((\<forall>x \<in> set items. is_wrapper x \<and> item_eic x \<noteq> JStr eic) \<and> length items \<noteq> 1
      \<longrightarrow> extract_measurements (JList items) eic = JList [])
   \<and> ((\<forall>d. data \<noteq> JDict d) \<and> (\<forall>items. data \<noteq> JList items)
      \<longrightarrow> extract_measurements data eic = JList [])"
proof -
  have 1: "extract_measurements (JDict d) eic
     = (case find (\<lambda>k. truthy (dict_get d k)) unwrap_keys of
          None \<Rightarrow> JList []
        | Some k \<Rightarrow> (case dict_get d k of
                       JList items \<Rightarrow> extract_measurements (JList items) eic
                     | other \<Rightarrow> JList []))"
  proof (cases "find (\<lambda>k. truthy (dict_get d k)) unwrap_keys")
    case None
    then have "unwrap d = JList []" by (simp add: unwrap_first_truthy)
    then show ?thesis
      using None by (simp add: extract_measurements_dict extract_measurements_list)
  next
    case (Some k)
    then have "unwrap d = dict_get d k" by (simp add: unwrap_first_truthy)
    then show ?thesis
      using Some by (simp add: extract_measurements_dict)
  qed
  have 2: "(\<forall>x \<in> set pre. is_wrapper x \<and> item_eic x \<noteq> JStr eic)
        \<and> is_wrapper w \<and> item_eic w = JStr eic
      \<longrightarrow> extract_measurements (JList (pre @ w # post)) eic = item_measurements w"
  proof
    assume a: "(\<forall>x \<in> set pre. is_wrapper x \<and> item_eic x \<noteq> JStr eic)
        \<and> is_wrapper w \<and> item_eic w = JStr eic"
    then have p: "\<forall>x \<in> set pre. is_wrapper x \<and> item_eic x \<noteq> JStr eic" by simp
    show "extract_measurements (JList (pre @ w # post)) eic = item_measurements w"
    proof (cases "pre = []")
      case True
      with a show ?thesis by (simp add: extract_measurements_list)
    next
      case False
      then have l: "length (pre @ w # post) \<noteq> 1" by (cases pre) auto
      show ?thesis
        unfolding extract_measurements_list scan_items_skip [OF p l] using a by simp
    qed
  qed
  have 3: "is_wrapper w \<longrightarrow> extract_measurements (JList [w]) eic = item_measurements w"
    by (simp add: extract_measurements_list)
  have 4: "(\<forall>x \<in> set pre. is_wrapper x \<and> item_eic x \<noteq> JStr eic) \<and> \<not> is_wrapper y
      \<longrightarrow> extract_measurements (JList (pre @ y # post)) eic = JList (pre @ y # post)"
  proof
    assume a: "(\<forall>x \<in> set pre. is_wrapper x \<and> item_eic x \<noteq> JStr eic) \<and> \<not> is_wrapper y"
    then have p: "\<forall>x \<in> set pre. is_wrapper x \<and> item_eic x \<noteq> JStr eic" by simp
    show "extract_measurements (JList (pre @ y # post)) eic = JList (pre @ y # post)"
    proof (cases "pre = []")
      case True
      with a show ?thesis by (simp add: extract_measurements_list)
    next
      case False
      then have l: "length (pre @ y # post) \<noteq> 1" by (cases pre) auto
      show ?thesis
        unfolding extract_measurements_list scan_items_skip [OF p l] using a by simp
    qed
  qed
  have 5: "(\<forall>x \<in> set items. is_wrapper x \<and> item_eic x \<noteq> JStr eic) \<and> length items \<noteq> 1
      \<longrightarrow> extract_measurements (JList items) eic = JList []"
  proof
    assume a: "(\<forall>x \<in> set items. is_wrapper x \<and> item_eic x \<noteq> JStr eic) \<and> length items \<noteq> 1"
    then have p: "\<forall>x \<in> set items. is_wrapper x \<and> item_eic x \<noteq> JStr eic"
      and l: "length items \<noteq> 1" by simp_all
    have "scan_items items (items @ []) eic = scan_items items [] eic"
      using p l by (rule scan_items_skip)
    then show "extract_measurements (JList items) eic = JList []"
      by (simp add: extract_measurements_list)
  qed
  have 6: "(\<forall>d. data \<noteq> JDict d) \<and> (\<forall>items. data \<noteq> JList items)
      \<longrightarrow> extract_measurements data eic = JList []"
    by (cases data) (simp_all add: extract_measurements_def)
  show ?thesis
    by (rule conjI [OF 1 conjI [OF 2 conjI [OF 3 conjI [OF 4 conjI [OF 5 6]]]]])
qed


theorem extract_measurements_cases_witness:
  "extract_measurements (JDict [(''meteringData'', JList []), (''data'', JList [wrapper_b])]) ''A''
     = JList [JDict [(''timestamp'', JStr ''t1'')]]
   \<and> extract_measurements (JList [wrapper_b, wrapper_a]) ''A''
     = JList [JDict [(''timestamp'', JStr ''t2'')]]
   \<and> extract_measurements (JList [wrapper_a]) ''A'' = JList [JDict [(''timestamp'', JStr ''t2'')]]
   \<and> extract_measurements (JList [flat_record, flat_record]) ''A''
     = JList [flat_record, flat_record]
   \<and> extract_measurements (JList [wrapper_b, wrapper_b]) ''A'' = JList []
   \<and> extract_measurements (JStr ''error'') ''A'' = JList []"
proof -
  have e: "extract_measurements (JList [wrapper_b]) ''A'' = JList [JDict [(''timestamp'', JStr ''t1'')]]"
    by (simp add: extract_measurements_list wrapper_b_def dict_get_def py_or_def)
  note t = extract_measurements_cases
    [where d = "[(''meteringData'', JList []), (''data'', JList [wrapper_b])]" and eic = "''A''"
       and pre = "[wrapper_b]" and w = wrapper_a and post = "[]" and y = flat_record
       and items = "[wrapper_b, wrapper_b]" and data = "JStr ''error''"]
    extract_measurements_cases
    [where d = "[]" and eic = "''A''" and pre = "[]" and w = wrapper_a
       and y = flat_record and post = "[flat_record]" and items = "[]" and data = JNull]
  show ?thesis
    using t e
    by (simp add: wrapper_a_def wrapper_b_def flat_record_def dict_get_def py_or_def
        unwrap_keys_def)
qed

end
